theory Spec2Isabelle
  imports Main "HOL-Library.Sublist"
begin

section \<open>Strings as the two programs test them\<close>

text \<open>
  Strings are byte lists. \<open>toLowerCase\<close> folds the ASCII capital letters, which is what
  JavaScript's \<^verbatim>\<open>String.prototype.toLowerCase\<close> does on ASCII text.
  \<open>str_includes s p\<close> is \<^verbatim>\<open>s.includes(p)\<close> of JavaScript and the
  bash test \<^verbatim>\<open>[[ "$s" == *"p"* ]]\<close>: \<open>p\<close> occurs in \<open>s\<close> as a contiguous block.
  \<open>js_trim\<close> is \<^verbatim>\<open>trim()\<close> for the ASCII white space: tab, line feed, vertical tab,
  form feed, carriage return and space.
\<close>

definition to_lower_char :: "char \<Rightarrow> char" where
  "to_lower_char c =
     (case map_of (zip ''ABCDEFGHIJKLMNOPQRSTUVWXYZ'' ''abcdefghijklmnopqrstuvwxyz'') c of
        None \<Rightarrow> c
      | Some l \<Rightarrow> l)"

definition toLowerCase :: "string \<Rightarrow> string" where
  "toLowerCase s = map to_lower_char s"

fun str_includes :: "string \<Rightarrow> string \<Rightarrow> bool" where
  "str_includes [] p = (p = [])"
| "str_includes (c # cs) p = (prefix p (c # cs) \<or> str_includes cs p)"

definition is_space :: "char \<Rightarrow> bool" where
  "is_space c = (of_char c \<in> {9, 10, 11, 12, 13, 32 :: nat})"

definition js_trim :: "string \<Rightarrow> string" where
  "js_trim s = rev (dropWhile is_space (rev (dropWhile is_space s)))"

section \<open>The log-watching script (upstream)\<close>

subsection \<open>Shell variables of the read loop\<close>

record tcc_state =
  prev_camera_active :: string
  prev_front_app :: string
  prev_service :: string
  prev_verdict :: string
  prev_process :: string
  prev_pid :: string
  prev_main_app :: string
  last_log_time :: int
  current_svc :: string
  current_pid :: string
  current_app :: string
  current_verdict :: string
  current_parent_pid :: string
  current_process_path :: string

definition tcc_init :: tcc_state where
  "tcc_init =
     \<lparr>prev_camera_active = [], prev_front_app = [], prev_service = [], prev_verdict = [],
      prev_process = [], prev_pid = [], prev_main_app = [], last_log_time = 0,
      current_svc = [], current_pid = [], current_app = [], current_verdict = [],
      current_parent_pid = [], current_process_path = []\<rparr>"

text \<open>
  What the operating system answers while one line is handled: the commands
  \<^verbatim>\<open>ps\<close>, \<^verbatim>\<open>osascript\<close>, \<^verbatim>\<open>who\<close>, \<^verbatim>\<open>pgrep\<close> and \<^verbatim>\<open>date\<close> are
  read as given values. \<open>ps_app p\<close> is the command name of process \<open>p\<close> after
  \<^verbatim>\<open>basename\<close>, or \<open>None\<close> when \<^verbatim>\<open>ps -p\<close> finds no such process and fails;
  \<open>pgrep_camera\<close> tells whether one of the two camera assistants runs;
  \<open>current_time\<close> is \<^verbatim>\<open>date +%s\<close>, whole seconds. The helpers \<^verbatim>\<open>parent_pid\<close>,
  \<^verbatim>\<open>process_path\<close>, \<^verbatim>\<open>front_app\<close>, \<^verbatim>\<open>window_title\<close> and \<^verbatim>\<open>session_id\<close> end in
  \<^verbatim>\<open>|| echo ""\<close> and so always give a string.
\<close>

record probes =
  ps_app :: "string \<Rightarrow> string option"
  ps_parent_pid :: "string \<Rightarrow> string"
  ps_process_path :: "string \<Rightarrow> string"
  ts :: string
  fg_app :: string
  win_title :: string
  sess_id :: string
  pgrep_camera :: bool
  current_time :: int

definition cam_now :: "probes \<Rightarrow> string" where
  "cam_now pr = (if pgrep_camera pr then ''true'' else ''false'')"

definition normalize_app :: "string \<Rightarrow> string" where
  "normalize_app process_name =
     (if str_includes process_name ''Microsoft Teams'' then ''Microsoft Teams''
      else if str_includes process_name ''Google Chrome''
              \<or> str_includes process_name ''Chrome Helper'' then ''Google Chrome''
      else if str_includes process_name ''Slack'' then ''Slack''
      else process_name)"

subsection \<open>The line patterns\<close>

definition is_digit :: "char \<Rightarrow> bool" where
  "is_digit c = (c \<in> set ''0123456789'')"

definition pid_token :: string where
  "pid_token = ''target_token={pid:''"

text \<open>
  The regular expression \<^verbatim>\<open>target_token=\{pid:([0-9]+)\<close>: the leftmost place where the
  token is followed by a digit, and there the longest run of digits.
\<close>

fun match_pid :: "string \<Rightarrow> string option" where
  "match_pid [] = None"
| "match_pid (c # cs) =
     (let digits = takeWhile is_digit (drop (length pid_token) (c # cs))
      in if prefix pid_token (c # cs) \<and> digits \<noteq> [] then Some digits else match_pid cs)"

definition parse_service :: "string \<Rightarrow> tcc_state \<Rightarrow> tcc_state" where
  "parse_service line st =
     (if str_includes line ''kTCCServiceMicrophone'' then st\<lparr>current_svc := ''microphone''\<rparr>
      else if str_includes line ''kTCCServiceCamera'' then st\<lparr>current_svc := ''camera''\<rparr>
      else st)"

definition parse_verdict :: "string \<Rightarrow> tcc_state \<Rightarrow> tcc_state" where
  "parse_verdict line st =
     (if str_includes line ''Access Allowed'' \<or> str_includes line ''Auth Granted''
         \<or> str_includes line ''Allow'' then st\<lparr>current_verdict := ''allowed''\<rparr>
      else if str_includes line ''Denied'' then st\<lparr>current_verdict := ''denied''\<rparr>
      else if str_includes line ''FORWARD'' then st\<lparr>current_verdict := ''requested''\<rparr>
      else st)"

subsection \<open>Emission and reset\<close>

text \<open>The record printed by the \<^verbatim>\<open>json\<close> helper, field by field.\<close>

record forwarded =
  f_event :: string
  f_timestamp :: string
  f_service :: string
  f_verdict :: string
  f_process :: string
  f_pid :: string
  f_parent_pid :: string
  f_process_path :: string
  f_front_app :: string
  f_window_title :: string
  f_session_id :: string
  f_camera_active :: string

definition current_state :: "probes \<Rightarrow> tcc_state \<Rightarrow> string" where
  "current_state pr st =
     cam_now pr @ ''|'' @ current_svc st @ ''|'' @ normalize_app (current_app st)"

definition previous_state :: "tcc_state \<Rightarrow> string" where
  "previous_state st = prev_camera_active st @ ''|'' @ prev_service st @ ''|'' @ prev_main_app st"

definition time_diff :: "probes \<Rightarrow> tcc_state \<Rightarrow> int" where
  "time_diff pr st = current_time pr - last_log_time st"

definition should_emit :: "probes \<Rightarrow> tcc_state \<Rightarrow> bool" where
  "should_emit pr st = (current_state pr st \<noteq> previous_state st \<or> time_diff pr st \<ge> 10)"

definition json_record :: "probes \<Rightarrow> tcc_state \<Rightarrow> forwarded" where
  "json_record pr st =
     \<lparr>f_event = ''meeting_signal'', f_timestamp = ts pr, f_service = current_svc st,
      f_verdict = current_verdict st, f_process = current_app st, f_pid = current_pid st,
      f_parent_pid = current_parent_pid st, f_process_path = current_process_path st,
      f_front_app = fg_app pr, f_window_title = win_title pr, f_session_id = sess_id pr,
      f_camera_active = cam_now pr\<rparr>"

definition update_previous :: "probes \<Rightarrow> tcc_state \<Rightarrow> tcc_state" where
  "update_previous pr st =
     st\<lparr>prev_camera_active := cam_now pr, prev_front_app := fg_app pr,
        prev_service := current_svc st, prev_verdict := current_verdict st,
        prev_process := current_app st, prev_pid := current_pid st,
        prev_main_app := normalize_app (current_app st), last_log_time := current_time pr\<rparr>"

definition reset_current :: "tcc_state \<Rightarrow> tcc_state" where
  "reset_current st =
     st\<lparr>current_svc := [], current_pid := [], current_app := [], current_verdict := [],
        current_parent_pid := [], current_process_path := []\<rparr>"

text \<open>
  The script runs under \<^verbatim>\<open>set -euo pipefail\<close>, and the assignment
  \<^verbatim>\<open>current_app_full=$(ps -p "$current_pid" -o comm= 2>/dev/null | tail -1)\<close> has no
  fallback: when \<^verbatim>\<open>ps\<close> fails, the assignment fails and the shell that runs the loop
  exits. \<open>None\<close> is that exit.
\<close>

definition lookup_process :: "probes \<Rightarrow> string \<Rightarrow> tcc_state \<Rightarrow> tcc_state option" where
  "lookup_process pr p st =
     (let st1 = st\<lparr>current_pid := p\<rparr>
      in if current_pid st1 \<noteq> []
         then (case ps_app pr (current_pid st1) of
                 None \<Rightarrow> None
               | Some app \<Rightarrow>
                   Some (st1\<lparr>current_app := app,
                             current_parent_pid := ps_parent_pid pr (current_pid st1),
                             current_process_path := ps_process_path pr (current_pid st1)\<rparr>))
         else Some st1)"

definition resolve :: "probes \<Rightarrow> tcc_state \<Rightarrow> forwarded option \<times> tcc_state" where
  "resolve pr st =
     (if current_svc st \<noteq> [] \<and> current_pid st \<noteq> []
      then (if should_emit pr st
            then (Some (json_record pr st), reset_current (update_previous pr st))
            else (None, reset_current st))
      else (None, st))"

text \<open>One turn of the \<^verbatim>\<open>while read\<close> loop: the line, and what is printed for it;
  \<open>None\<close> when the loop ends in this turn.\<close>

definition process_line ::
  "probes \<Rightarrow> tcc_state \<Rightarrow> string \<Rightarrow> (forwarded option \<times> tcc_state) option" where
  "process_line pr st line =
     (let st1 = parse_verdict line (parse_service line st)
      in case match_pid line of
           None \<Rightarrow> Some (None, st1)
         | Some p \<Rightarrow>
             (case lookup_process pr p st1 of
                None \<Rightarrow> None
              | Some st2 \<Rightarrow> Some (resolve pr st2)))"

text \<open>
  The loop over the stream: each line comes with the answers the system gave for it.
  The result is what was printed line by line, and the variables at the end, or \<open>None\<close>
  when the loop ended before the last line was done.
\<close>

fun run_lines ::
  "tcc_state \<Rightarrow> (probes \<times> string) list \<Rightarrow> forwarded option list \<times> tcc_state option" where
  "run_lines st [] = ([], Some st)"
| "run_lines st ((pr, line) # rest) =
     (case process_line pr st line of
        None \<Rightarrow> ([], None)
      | Some (out, st1) \<Rightarrow> (case run_lines st1 rest of (outs, r) \<Rightarrow> (out # outs, r)))"

subsection \<open>The snapshot of the last emitted state\<close>

text \<open>
  The three variables compared by the loop, and the time of the last emission. The
  script joins the three with \<open>|\<close> and compares the joined strings; \<open>bar_free\<close> says
  that the camera and service parts hold no \<open>|\<close>, so that the joined strings are equal
  exactly when the parts are.
\<close>

definition snapshot :: "tcc_state \<Rightarrow> (string \<times> string \<times> string) \<times> int" where
  "snapshot st = ((prev_camera_active st, prev_service st, prev_main_app st), last_log_time st)"

definition bar_free :: "tcc_state \<Rightarrow> bool" where
  "bar_free st =
     (CHR ''|'' \<notin> set (prev_camera_active st) \<and> CHR ''|'' \<notin> set (prev_service st)
      \<and> CHR ''|'' \<notin> set (current_svc st))"

section \<open>The detector class (downstream)\<close>

subsection \<open>Signals\<close>

text \<open>
  \<^verbatim>\<open>JSON.parse\<close> belongs to the runtime; it is a parameter \<open>decode\<close> of the handler,
  with \<open>None\<close> where it throws. The object it returns is read through eight properties.
  Each is a string or absent, as the \<^verbatim>\<open>json\<close> helper of the script prints them and
  as the interface \<^verbatim>\<open>MeetingSignal\<close> declares them; \<^verbatim>\<open>camera_active\<close> may also be
  a boolean, which the parser tests for.
\<close>

datatype cam_value = CamAbsent | CamBool bool | CamString string

record parsed_json =
  j_event :: "string option"
  j_timestamp :: "string option"
  j_service :: "string option"
  j_verdict :: "string option"
  j_process :: "string option"
  j_pid :: "string option"
  j_front_app :: "string option"
  j_camera_active :: cam_value

record MeetingSignal =
  event :: "string option"
  timestamp :: "string option"
  service :: string
  verdict :: string
  process :: string
  pid :: string
  front_app :: string
  camera_active :: bool

text \<open>\<^verbatim>\<open>x || d\<close> on a string that may be absent: the empty string is falsy.\<close>

definition str_or :: "string option \<Rightarrow> string \<Rightarrow> string" where
  "str_or x d = (case x of None \<Rightarrow> d | Some s \<Rightarrow> if s = [] then d else s)"

definition transformAppName :: "string option \<Rightarrow> string option \<Rightarrow> string" where
  "transformAppName frontApp process_name =
     (let app = str_or (map_option toLowerCase frontApp) [];
          proc = str_or (map_option toLowerCase process_name) []
      in if str_includes app ''slack'' \<or> str_includes proc ''slack'' then ''Slack''
         else if str_includes app ''msteams'' \<or> str_includes proc ''microsoft teams''
                 \<or> str_includes proc ''teams'' then ''Microsoft Teams''
         else if str_includes app ''zoom'' \<or> str_includes proc ''zoom'' then ''Zoom''
         else if str_includes app ''webex'' \<or> str_includes proc ''webex''
                 \<or> str_includes proc ''cisco webex'' then ''Webex''
         else if str_includes app ''google meet'' \<or> str_includes proc ''google meet''
                 \<or> str_includes proc ''meet.google.com''
                 \<or> (str_includes app ''chrome'' \<and> str_includes proc ''chrome'') then ''Google Meet''
         else if str_includes app ''skype'' \<or> str_includes proc ''skype'' then ''Skype''
         else if str_includes app ''discord'' \<or> str_includes proc ''discord'' then ''Discord''
         else if str_includes app ''facetime'' \<or> str_includes proc ''facetime'' then ''FaceTime''
         else if str_includes app ''gotomeeting'' \<or> str_includes proc ''gotomeeting''
                 \<or> str_includes proc ''goto meeting'' then ''GoToMeeting''
         else if str_includes app ''bluejeans'' \<or> str_includes proc ''bluejeans''
                 \<or> str_includes proc ''blue jeans'' then ''BlueJeans''
         else if str_includes app ''jitsi'' \<or> str_includes proc ''jitsi'' then ''Jitsi Meet''
         else if str_includes app ''whereby'' \<or> str_includes proc ''whereby'' then ''Whereby''
         else if str_includes app ''8x8'' \<or> str_includes proc ''8x8'' then ''8x8''
         else if str_includes app ''ringcentral'' \<or> str_includes proc ''ringcentral''
                 \<or> str_includes proc ''ring central'' then ''RingCentral''
         else if str_includes app ''bigbluebutton'' \<or> str_includes proc ''bigbluebutton''
                 \<or> str_includes proc ''big blue button'' then ''BigBlueButton''
         else if str_includes app ''chime'' \<or> str_includes proc ''chime''
                 \<or> str_includes proc ''amazon chime'' then ''Amazon Chime''
         else if str_includes app ''hangouts'' \<or> str_includes proc ''hangouts''
                 \<or> str_includes proc ''google hangouts'' then ''Google Hangouts''
         else if str_includes app ''adobe connect'' \<or> str_includes proc ''adobe connect''
              then ''Adobe Connect''
         else if str_includes app ''teamviewer'' \<or> str_includes proc ''teamviewer''
              then ''TeamViewer''
         else if str_includes app ''anydesk'' \<or> str_includes proc ''anydesk'' then ''AnyDesk''
         else if str_includes app ''clickmeeting'' \<or> str_includes proc ''clickmeeting''
              then ''ClickMeeting''
         else if str_includes app ''appear.in'' \<or> str_includes proc ''appear.in''
              then ''Appear.in''
         else str_or frontApp ''Meeting App'')"

definition parseSignal :: "parsed_json \<Rightarrow> MeetingSignal" where
  "parseSignal signal =
     (let originalService = str_or (j_service signal) [];
          transformedService = transformAppName (j_front_app signal) (j_process signal);
          finalService =
            (if originalService = ''microphone'' \<or> originalService = ''camera''
                \<or> originalService = []
             then transformedService else originalService)
      in \<lparr>event = j_event signal, timestamp = j_timestamp signal, service = finalService,
          verdict = str_or (j_verdict signal) [], process = str_or (j_process signal) [],
          pid = str_or (j_pid signal) [], front_app = str_or (j_front_app signal) [],
          camera_active =
            (j_camera_active signal = CamString ''true'' \<or> j_camera_active signal = CamBool True)\<rparr>)"

subsection \<open>The table of recent signals\<close>

record entry =
  entry_timestamp :: int
  entry_signal :: MeetingSignal

type_synonym signal_map = "string \<rightharpoonup> entry"

text \<open>
  Each \<^verbatim>\<open>Date.now()\<close> and \<^verbatim>\<open>new Date()\<close> reads the clock, in milliseconds. Handling
  one signal reads it up to three times: in \<^verbatim>\<open>isDuplicateSignal\<close>, for the timestamp
  stored by \<^verbatim>\<open>trackSignal\<close>, and for the cutoff of its clean-up loop.
\<close>

record clock =
  t_check :: int
  t_stamp :: int
  t_sweep :: int

definition signal_key :: "MeetingSignal \<Rightarrow> string" where
  "signal_key signal = pid signal @ ''-'' @ service signal @ ''-'' @ verdict signal"

definition isDuplicateSignal :: "signal_map \<Rightarrow> int \<Rightarrow> MeetingSignal \<Rightarrow> bool" where
  "isDuplicateSignal recent now signal =
     (if pid signal = [] then False
      else case recent (signal_key signal) of
             None \<Rightarrow> False
           | Some existing \<Rightarrow> now - entry_timestamp existing < 60000)"

text \<open>The clean-up loop of \<^verbatim>\<open>trackSignal\<close>: every entry is visited, and deleted when its
  timestamp is below the cutoff.\<close>

definition cleanup :: "int \<Rightarrow> signal_map \<Rightarrow> signal_map" where
  "cleanup cutoffTime recent =
     (\<lambda>k. case recent k of
             None \<Rightarrow> None
           | Some e \<Rightarrow> if entry_timestamp e < cutoffTime then None else Some e)"

definition trackSignal :: "signal_map \<Rightarrow> clock \<Rightarrow> MeetingSignal \<Rightarrow> signal_map" where
  "trackSignal recent clk signal =
     (if pid signal = [] then recent
      else cleanup (t_sweep clk - 120000)
             (recent(signal_key signal \<mapsto> \<lparr>entry_timestamp = t_stamp clk, entry_signal = signal\<rparr>)))"

subsection \<open>The detector object\<close>

text \<open>
  \<open>child\<close> is the field \<^verbatim>\<open>process\<close>: the running script with its shell variables, or
  nothing. The two counters are the listeners registered for \<^verbatim>\<open>'meeting'\<close> and for
  \<^verbatim>\<open>'error'\<close>; listeners are taken to return normally.
\<close>

record detector =
  child :: "tcc_state option"
  recentSignals :: signal_map
  meeting_listeners :: nat
  error_listeners :: nat

datatype failure = AlreadyRunning | Unhandled string

definition new_detector :: detector where
  "new_detector =
     \<lparr>child = None, recentSignals = Map.empty, meeting_listeners = 0, error_listeners = 0\<rparr>"

definition onMeeting :: "detector \<Rightarrow> detector" where
  "onMeeting d = d\<lparr>meeting_listeners := Suc (meeting_listeners d)\<rparr>"

definition onError :: "detector \<Rightarrow> detector" where
  "onError d = d\<lparr>error_listeners := Suc (error_listeners d)\<rparr>"

text \<open>\<^verbatim>\<open>start(callback?)\<close>: \<open>with_callback\<close> tells whether a callback was passed. The
  spawned script begins with its variables as the script initialises them.\<close>

definition start :: "bool \<Rightarrow> detector \<Rightarrow> failure + detector" where
  "start with_callback d =
     (if child d \<noteq> None then Inl AlreadyRunning
      else Inr ((if with_callback then onMeeting d else d)\<lparr>child := Some tcc_init\<rparr>))"

definition stop :: "detector \<Rightarrow> detector" where
  "stop d = (if child d \<noteq> None then d\<lparr>child := None\<rparr> else d)"

definition isRunning :: "detector \<Rightarrow> bool" where
  "isRunning d = (child d \<noteq> None)"

text \<open>The running script reads one line of the log: its variables move on, and it may
  print a record. The detector does not see the variables; they end with the script.
  When the script ends by itself, the handler of its \<^verbatim>\<open>'exit'\<close> event clears the field.\<close>

definition child_reads :: "probes \<Rightarrow> string \<Rightarrow> detector \<Rightarrow> forwarded option \<times> detector" where
  "child_reads pr line d =
     (case child d of
        None \<Rightarrow> (None, d)
      | Some st \<Rightarrow>
          (case process_line pr st line of
             None \<Rightarrow> (None, d\<lparr>child := None\<rparr>)
           | Some (out, st1) \<Rightarrow> (out, d\<lparr>child := Some st1\<rparr>)))"

subsection \<open>The handler of a chunk of output\<close>

datatype emitted = Meeting MeetingSignal | Error string

text \<open>
  \<^verbatim>\<open>emit('error', e)\<close> of an \<^verbatim>\<open>EventEmitter\<close> with no listener for \<^verbatim>\<open>'error'\<close>
  throws \<open>e\<close>. In the handler this happens inside the \<^verbatim>\<open>catch\<close> block, so the
  exception leaves the loop over the lines.
\<close>

definition emit_error :: "detector \<Rightarrow> string \<Rightarrow> failure + emitted list" where
  "emit_error d line = (if error_listeners d = 0 then Inl (Unhandled line) else Inr [Error line])"

definition suppressed_process :: "MeetingSignal \<Rightarrow> bool" where
  "suppressed_process signal =
     (let processName = toLowerCase (process signal)
      in str_includes processName ''afplay'' \<or> str_includes processName ''sirincservice'')"

text \<open>The duplicate check of the handler: a signal that is no duplicate is emitted and
  then tracked; a duplicate is skipped.\<close>

definition emit_unless_duplicate ::
  "clock \<Rightarrow> detector \<Rightarrow> MeetingSignal \<Rightarrow> emitted list \<times> detector" where
  "emit_unless_duplicate clk d signal =
     (if \<not> isDuplicateSignal (recentSignals d) (t_check clk) signal
      then ([Meeting signal], d\<lparr>recentSignals := trackSignal (recentSignals d) clk signal\<rparr>)
      else ([], d))"

text \<open>The body of the loop for one line: the events emitted and the detector afterwards,
  or the exception that escapes.\<close>

definition handle_line ::
  "(string \<Rightarrow> parsed_json option) \<Rightarrow> clock \<Rightarrow> detector \<Rightarrow> string
     \<Rightarrow> failure + (emitted list \<times> detector)" where
  "handle_line decode clk d line =
     (if js_trim line = [] then Inr ([], d)
      else case decode line of
             None \<Rightarrow>
               (case emit_error d line of Inl e \<Rightarrow> Inl e | Inr evs \<Rightarrow> Inr (evs, d))
           | Some obj \<Rightarrow>
               (let signal = parseSignal obj
                in if suppressed_process signal then Inr ([], d)
                   else Inr (emit_unless_duplicate clk d signal)))"

text \<open>
  The loop over the lines of one chunk, each with the clock readings made while it is
  handled. The result is what was emitted, the detector afterwards, and the exception
  that ended the loop early, if one did.
\<close>

fun handle_lines ::
  "(string \<Rightarrow> parsed_json option) \<Rightarrow> detector \<Rightarrow> (clock \<times> string) list
     \<Rightarrow> emitted list \<times> detector \<times> failure option" where
  "handle_lines decode d [] = ([], d, None)"
| "handle_lines decode d ((clk, line) # rest) =
     (case handle_line decode clk d line of
        Inl e \<Rightarrow> ([], d, Some e)
      | Inr (evs, d1) \<Rightarrow>
          (case handle_lines decode d1 rest of (evs2, d2, r) \<Rightarrow> (evs @ evs2, d2, r)))"

section \<open>The rule table of the normalizer\<close>

text \<open>
  The chain of conditions of \<open>transformAppName\<close> read as an ordered table: each rule is a
  test on the lower-cased front application and process name, with its label; the first
  rule whose test holds gives the label.
\<close>

type_synonym app_rule = "(string \<Rightarrow> string \<Rightarrow> bool) \<times> string"

definition either_includes :: "string list \<Rightarrow> string list \<Rightarrow> string \<Rightarrow> string \<Rightarrow> bool" where
  "either_includes app_pats proc_pats app proc =
     (list_ex (str_includes app) app_pats \<or> list_ex (str_includes proc) proc_pats)"

definition app_rules :: "app_rule list" where
  "app_rules =
     [(either_includes [''slack''] [''slack''], ''Slack''),
      (either_includes [''msteams''] [''microsoft teams'', ''teams''], ''Microsoft Teams''),
      (either_includes [''zoom''] [''zoom''], ''Zoom''),
      (either_includes [''webex''] [''webex'', ''cisco webex''], ''Webex''),
      (\<lambda>app proc. either_includes [''google meet''] [''google meet'', ''meet.google.com''] app proc
                    \<or> (str_includes app ''chrome'' \<and> str_includes proc ''chrome''),
       ''Google Meet''),
      (either_includes [''skype''] [''skype''], ''Skype''),
      (either_includes [''discord''] [''discord''], ''Discord''),
      (either_includes [''facetime''] [''facetime''], ''FaceTime''),
      (either_includes [''gotomeeting''] [''gotomeeting'', ''goto meeting''], ''GoToMeeting''),
      (either_includes [''bluejeans''] [''bluejeans'', ''blue jeans''], ''BlueJeans''),
      (either_includes [''jitsi''] [''jitsi''], ''Jitsi Meet''),
      (either_includes [''whereby''] [''whereby''], ''Whereby''),
      (either_includes [''8x8''] [''8x8''], ''8x8''),
      (either_includes [''ringcentral''] [''ringcentral'', ''ring central''], ''RingCentral''),
      (either_includes [''bigbluebutton''] [''bigbluebutton'', ''big blue button''],
       ''BigBlueButton''),
      (either_includes [''chime''] [''chime'', ''amazon chime''], ''Amazon Chime''),
      (either_includes [''hangouts''] [''hangouts'', ''google hangouts''], ''Google Hangouts''),
      (either_includes [''adobe connect''] [''adobe connect''], ''Adobe Connect''),
      (either_includes [''teamviewer''] [''teamviewer''], ''TeamViewer''),
      (either_includes [''anydesk''] [''anydesk''], ''AnyDesk''),
      (either_includes [''clickmeeting''] [''clickmeeting''], ''ClickMeeting''),
      (either_includes [''appear.in''] [''appear.in''], ''Appear.in'')]"

fun first_match :: "app_rule list \<Rightarrow> string \<Rightarrow> string \<Rightarrow> string option" where
  "first_match [] app proc = None"
| "first_match ((test, label) # rules) app proc =
     (if test app proc then Some label else first_match rules app proc)"

section \<open>Concrete inputs\<close>

definition probes_example :: probes where
  "probes_example =
     \<lparr>ps_app = (\<lambda>p. Some ''MSTeams''), ps_parent_pid = (\<lambda>p. ''1''),
      ps_process_path = (\<lambda>p. ''/Applications/MSTeams''), ts = ''2025-01-01T00:00:00Z'',
      fg_app = ''MSTeams'', win_title = [], sess_id = ''console'', pgrep_camera = False,
      current_time = 1735689600\<rparr>"

definition probes_zoom_example :: probes where
  "probes_zoom_example =
     probes_example\<lparr>ps_app := (\<lambda>p. Some ''zoom.us''),
       ps_process_path := (\<lambda>p. ''/Applications/zoom.us''), fg_app := ''zoom.us'',
       current_time := 1735689601\<rparr>"

definition probes_later_example :: probes where
  "probes_later_example = probes_example\<lparr>fg_app := ''Finder'', current_time := 1735689602\<rparr>"

definition trigger_example :: string where
  "trigger_example = ''kTCCServiceMicrophone target_token={pid:7390}''"

definition trigger_zoom_example :: string where
  "trigger_zoom_example = ''kTCCServiceMicrophone target_token={pid:812}''"

definition json_example :: parsed_json where
  "json_example =
     \<lparr>j_event = Some ''meeting_signal'', j_timestamp = Some ''2025-01-01T00:00:00Z'',
      j_service = Some ''microphone'', j_verdict = Some ''allowed'',
      j_process = Some ''MSTeams'', j_pid = Some ''7390'', j_front_app = Some ''MSTeams'',
      j_camera_active = CamString ''false''\<rparr>"

definition signal_example :: MeetingSignal where
  "signal_example =
     \<lparr>event = Some ''meeting_signal'', timestamp = Some ''2025-01-01T00:00:00Z'',
      service = ''Microsoft Teams'', verdict = ''allowed'', process = ''MSTeams'',
      pid = ''7390'', front_app = ''MSTeams'', camera_active = False\<rparr>"

definition other_signal_example :: MeetingSignal where
  "other_signal_example = signal_example\<lparr>pid := ''812'', service := ''Zoom''\<rparr>"

definition line_example :: string where
  \<open>line_example = ''{"service":"microphone", "verdict":"allowed", "pid":"7390"}''\<close>

text \<open>A decoder that knows one line and rejects every other.\<close>

definition decode_example :: "string \<Rightarrow> parsed_json option" where
  "decode_example line = (if line = line_example then Some json_example else None)"

definition at_time :: "int \<Rightarrow> clock" where
  "at_time t = \<lparr>t_check = t, t_stamp = t, t_sweep = t\<rparr>"

definition started_example :: detector where
  "started_example = (onError new_detector)\<lparr>child := Some tcc_init\<rparr>"

definition tracked_example :: detector where
  "tracked_example =
     started_example\<lparr>recentSignals := trackSignal Map.empty (at_time 0) signal_example\<rparr>"


section \<open>Properties of the table of recent signals\<close>

lemma parseSignal_example: "parseSignal json_example = signal_example"
  by (simp add: parseSignal_def json_example_def signal_example_def str_or_def
      transformAppName_def toLowerCase_def to_lower_char_def Let_def)

lemma signal_key_example: "signal_key signal_example = ''7390-Microsoft Teams-allowed''"
  by (simp add: signal_key_def signal_example_def)

lemma suppressed_process_example: "\<not> suppressed_process signal_example"
  by (simp add: suppressed_process_def signal_example_def toLowerCase_def to_lower_char_def)

lemma js_trim_example: "js_trim line_example \<noteq> []"
  by (simp add: js_trim_def line_example_def is_space_def)

lemma cleanup_apply:
  "cleanup c m k =
     (case m k of None \<Rightarrow> None | Some e \<Rightarrow> if entry_timestamp e < c then None else Some e)"
  by (simp add: cleanup_def)

lemma trackSignal_other:
  "pid s \<noteq> [] \<Longrightarrow> k \<noteq> signal_key s \<Longrightarrow>
   trackSignal m clk s k =
     (case m k of None \<Rightarrow> None
      | Some e \<Rightarrow> if entry_timestamp e < t_sweep clk - 120000 then None else Some e)"
  by (simp add: trackSignal_def cleanup_apply)

lemma trackSignal_own:
  "pid s \<noteq> [] \<Longrightarrow>
   trackSignal m clk s (signal_key s) =
     (if t_stamp clk < t_sweep clk - 120000 then None
      else Some \<lparr>entry_timestamp = t_stamp clk, entry_signal = s\<rparr>)"
  by (simp add: trackSignal_def cleanup_apply)

lemma same_key:
  "pid s2 = pid s1 \<Longrightarrow> service s2 = service s1 \<Longrightarrow> verdict s2 = verdict s1 \<Longrightarrow>
   signal_key s2 = signal_key s1"
  by (simp add: signal_key_def)


lemma second_signal_window:
  assumes "pid s1 \<noteq> []" and "pid s2 = pid s1" and "service s2 = service s1"
    and "verdict s2 = verdict s1"
    and "emit_unless_duplicate clk1 d s1 = ([Meeting s1], d1)"
  shows "(t_sweep clk1 \<le> t_check clk2 \<and> t_check clk2 - t_stamp clk1 < 60000 \<longrightarrow>
            emit_unless_duplicate clk2 d1 s2 = ([], d1))
       \<and> (t_check clk2 - t_stamp clk1 \<ge> 60000 \<longrightarrow>
            fst (emit_unless_duplicate clk2 d1 s2) = [Meeting s2])"
proof -
  from assms(5) have d1: "recentSignals d1 = trackSignal (recentSignals d) clk1 s1"
    by (auto simp: emit_unless_duplicate_def split: if_splits)
  have k: "signal_key s2 = signal_key s1" using assms(2-4) by (rule same_key)
  have own: "recentSignals d1 (signal_key s2) =
     (if t_stamp clk1 < t_sweep clk1 - 120000 then None
      else Some \<lparr>entry_timestamp = t_stamp clk1, entry_signal = s1\<rparr>)"
    unfolding d1 k using assms(1) by (rule trackSignal_own)
  show ?thesis
    using assms(1,2) own
    by (auto simp: emit_unless_duplicate_def isDuplicateSignal_def split: if_splits)
qed



text \<open>
  C3 (as amended). When a signal with a non-empty pid is tracked, the clean-up removes
  every other entry whose age at that moment is greater than 120000 ms, and keeps every
  other entry whose age is 120000 ms or less. A later signal whose key is that of a
  removed entry is emitted.
\<close>

theorem eviction_strictly_older:
  assumes "pid s \<noteq> []" and "recent k = Some e" and "k \<noteq> signal_key s"
  shows "(t_sweep clk - entry_timestamp e > 120000 \<longrightarrow>
            trackSignal recent clk s k = None
            \<and> (\<forall>s2 clk2 d. signal_key s2 = k \<longrightarrow>
                  fst (emit_unless_duplicate clk2
                         (d\<lparr>recentSignals := trackSignal recent clk s\<rparr>) s2) = [Meeting s2]))
       \<and> (t_sweep clk - entry_timestamp e \<le> 120000 \<longrightarrow> trackSignal recent clk s k = Some e)"
  using assms
  by (auto simp: trackSignal_other emit_unless_duplicate_def isDuplicateSignal_def)

theorem eviction_strictly_older_witness:
  "pid other_signal_example \<noteq> []
   \<and> signal_key signal_example \<noteq> signal_key other_signal_example
   \<and> trackSignal
        (Map.empty(signal_key signal_example \<mapsto>
           \<lparr>entry_timestamp = 0, entry_signal = signal_example\<rparr>))
        (at_time 120001) other_signal_example (signal_key signal_example) = None
   \<and> fst (emit_unless_duplicate (at_time 120002)
        (new_detector\<lparr>recentSignals :=
           trackSignal
             (Map.empty(signal_key signal_example \<mapsto>
                \<lparr>entry_timestamp = 0, entry_signal = signal_example\<rparr>))
             (at_time 120001) other_signal_example\<rparr>)
        signal_example) = [Meeting signal_example]"
proof -
  have p: "pid other_signal_example \<noteq> []"
    by (simp add: other_signal_example_def)
  have k: "signal_key signal_example \<noteq> signal_key other_signal_example"
    by (simp add: other_signal_example_def signal_key_def signal_example_def)
  have e: "(Map.empty(signal_key signal_example \<mapsto>
              \<lparr>entry_timestamp = 0, entry_signal = signal_example\<rparr>))
             (signal_key signal_example)
           = Some \<lparr>entry_timestamp = 0, entry_signal = signal_example\<rparr>"
    by simp
  show ?thesis
    using p k
      eviction_strictly_older
        [of other_signal_example
            "Map.empty(signal_key signal_example \<mapsto>
               \<lparr>entry_timestamp = 0, entry_signal = signal_example\<rparr>)"
            "signal_key signal_example"
            "\<lparr>entry_timestamp = 0, entry_signal = signal_example\<rparr>"
            "at_time 120001", OF p e k]
    by (simp add: at_time_def)
qed

theorem eviction_at_horizon_counterexample:
  "t_sweep (at_time 120000)
     - entry_timestamp \<lparr>entry_timestamp = 0, entry_signal = signal_example\<rparr> \<ge> 120000
   \<and> trackSignal
        (Map.empty(signal_key signal_example \<mapsto>
           \<lparr>entry_timestamp = 0, entry_signal = signal_example\<rparr>))
        (at_time 120000) other_signal_example (signal_key signal_example)
      = Some \<lparr>entry_timestamp = 0, entry_signal = signal_example\<rparr>"
  by (simp add: trackSignal_def cleanup_def at_time_def other_signal_example_def
      signal_key_def signal_example_def)

text \<open>
  C9. A signal whose pid is the empty string is never a duplicate, whatever the table
  holds and whatever its service and verdict are: the check emits it, and leaves the
  detector as it was. A line that decodes to such a signal, and whose process is not on
  the list of suppressed processes, is always emitted by the handler.
\<close>

theorem empty_pid_never_suppressed:
  assumes "pid s = []"
  shows "\<not> isDuplicateSignal recent now s
       \<and> emit_unless_duplicate clk d s = ([Meeting s], d)
       \<and> (js_trim line \<noteq> [] \<and> decode line = Some obj \<and> parseSignal obj = s
            \<and> \<not> suppressed_process s \<longrightarrow>
          handle_line decode clk d line = Inr ([Meeting s], d))"
  using assms
  by (simp add: isDuplicateSignal_def emit_unless_duplicate_def trackSignal_def
      handle_line_def)

theorem empty_pid_never_suppressed_witness:
  "pid (signal_example\<lparr>pid := []\<rparr>) = []
   \<and> emit_unless_duplicate (at_time 1)
        (new_detector\<lparr>recentSignals :=
           trackSignal Map.empty (at_time 0) signal_example\<rparr>)
        (signal_example\<lparr>pid := []\<rparr>)
      = ([Meeting (signal_example\<lparr>pid := []\<rparr>)],
         new_detector\<lparr>recentSignals :=
           trackSignal Map.empty (at_time 0) signal_example\<rparr>)"
proof -
  have p: "pid (signal_example\<lparr>pid := []\<rparr>) = []" by simp
  show ?thesis
    using p empty_pid_never_suppressed [OF p]
    by simp
qed

section \<open>Properties of the handler\<close>

lemma handle_line_listeners:
  "handle_line decode clk d line = Inr (evs, d1) \<Longrightarrow>
   error_listeners d1 = error_listeners d \<and> meeting_listeners d1 = meeting_listeners d
   \<and> child d1 = child d"
  by (auto simp: handle_line_def emit_error_def emit_unless_duplicate_def Let_def
      split: if_splits option.splits)

lemma handle_line_no_failure:
  "0 < error_listeners d \<Longrightarrow> \<exists>evs d1. handle_line decode clk d line = Inr (evs, d1)"
  by (auto simp: handle_line_def emit_error_def Let_def split: option.splits prod.splits)

lemma handle_lines_listeners:
  "handle_lines decode d batch = (evs, d1, r) \<Longrightarrow> error_listeners d1 = error_listeners d"
proof (induction batch arbitrary: d evs d1 r)
  case Nil
  then show ?case by simp
next
  case (Cons a batch)
  obtain clk line where a: "a = (clk, line)" by (cases a)
  show ?case
  proof (cases "handle_line decode clk d line")
    case (Inl e)
    with Cons.prems a show ?thesis by simp
  next
    case (Inr x)
    obtain evs0 d0 where x: "x = (evs0, d0)" by (cases x)
    obtain evs2 d2 r2 where rest: "handle_lines decode d0 batch = (evs2, d2, r2)"
      by (cases "handle_lines decode d0 batch")
    from Cons.prems a Inr x rest have "d1 = d2" by simp
    moreover from Cons.IH [OF rest] have "error_listeners d2 = error_listeners d0" .
    moreover from handle_line_listeners Inr x have "error_listeners d0 = error_listeners d"
      by blast
    ultimately show ?thesis by simp
  qed
qed

lemma handle_lines_no_failure:
  "0 < error_listeners d \<Longrightarrow> snd (snd (handle_lines decode d batch)) = None"
proof (induction batch arbitrary: d)
  case Nil
  then show ?case by simp
next
  case (Cons a batch)
  obtain clk line where a: "a = (clk, line)" by (cases a)
  from handle_line_no_failure [OF Cons.prems]
  obtain evs0 d0 where h: "handle_line decode clk d line = Inr (evs0, d0)" by blast
  with handle_line_listeners Cons.prems have "0 < error_listeners d0" by metis
  from Cons.IH [OF this] show ?case using a h by (auto split: prod.splits)
qed

lemma handle_lines_append:
  "handle_lines decode d (pre @ post) =
     (case handle_lines decode d pre of
        (evs1, d1, Some e) \<Rightarrow> (evs1, d1, Some e)
      | (evs1, d1, None) \<Rightarrow>
          (case handle_lines decode d1 post of (evs2, d2, r) \<Rightarrow> (evs1 @ evs2, d2, r)))"
proof (induction pre arbitrary: d)
  case Nil
  then show ?case by (simp split: prod.splits)
next
  case (Cons a pre)
  obtain clk line where a: "a = (clk, line)" by (cases a)
  show ?case
  proof (cases "handle_line decode clk d line")
    case (Inl e)
    with a show ?thesis by simp
  next
    case (Inr x)
    obtain evs0 d0 where x: "x = (evs0, d0)" by (cases x)
    show ?thesis
      using a Inr x Cons.IH [of d0]
      by (simp split: prod.splits option.splits)
  qed
qed

lemma malformed_line:
  "js_trim bad \<noteq> [] \<Longrightarrow> decode bad = None \<Longrightarrow> 0 < error_listeners d \<Longrightarrow>
   handle_line decode clk d bad = Inr ([Error bad], d)"
  by (simp add: handle_line_def emit_error_def)

lemma pid_example: "pid signal_example = ''7390''"
  by (simp add: signal_example_def)

lemma decode_not_json: "decode_example ''not json'' = None"
  by (simp add: decode_example_def line_example_def)

lemma decode_line_example: "decode_example line_example = Some json_example"
  by (simp add: decode_example_def)

lemma handle_line_example:
  "handle_line decode_example clk d line_example
     = Inr (emit_unless_duplicate clk d signal_example)"
  by (simp add: handle_line_def js_trim_example decode_example_def parseSignal_example
      suppressed_process_example)

lemma handle_line_not_json:
  "handle_line decode_example clk d ''not json''
     = (case emit_error d ''not json'' of Inl e \<Rightarrow> Inl e | Inr evs \<Rightarrow> Inr (evs, d))"
  by (simp add: handle_line_def js_trim_def is_space_def decode_example_def line_example_def)

lemma decode_blank: "decode_example [CHR '' '', CHR 0x09] = None"
  by (simp add: decode_example_def line_example_def)

lemma handle_line_blank: "handle_line decode clk d [CHR '' '', CHR 0x09] = Inr ([], d)"
  by (simp add: handle_line_def js_trim_def is_space_def)

text \<open>
  C7 (as amended). With at least one listener registered for \<^verbatim>\<open>'error'\<close>, a line
  that does not decode and holds at least one character that is not white space makes
  the handler emit exactly one error, for that line, and leaves the detector as it was.
  In a chunk, the lines before and after it are handled as if it were absent: their
  events and the final detector are those of the chunk without the line, with the one
  error in between, and no exception ends the loop. A line of white space only is
  skipped: no error, no signal, and the detector as it was.
\<close>

theorem malformed_line_reported:
  assumes "0 < error_listeners d" and "js_trim bad \<noteq> []" and "decode bad = None"
  shows "handle_line decode clk d bad = Inr ([Error bad], d)
       \<and> (\<exists>evs1 d1 evs2 d2.
             handle_lines decode d pre = (evs1, d1, None)
             \<and> handle_lines decode d1 post = (evs2, d2, None)
             \<and> handle_lines decode d (pre @ (clk, bad) # post)
                 = (evs1 @ [Error bad] @ evs2, d2, None)
             \<and> handle_lines decode d (pre @ post) = (evs1 @ evs2, d2, None))
       \<and> (js_trim blank = [] \<longrightarrow> handle_line decode clk d blank = Inr ([], d))"
proof -
  obtain evs1 d1 r1 where pre: "handle_lines decode d pre = (evs1, d1, r1)"
    by (cases "handle_lines decode d pre")
  from handle_lines_no_failure [OF assms(1), of decode pre] pre have r1: "r1 = None" by simp
  from handle_lines_listeners [OF pre] assms(1) have l1: "0 < error_listeners d1" by simp
  obtain evs2 d2 r2 where post: "handle_lines decode d1 post = (evs2, d2, r2)"
    by (cases "handle_lines decode d1 post")
  from handle_lines_no_failure [OF l1, of decode post] post have r2: "r2 = None" by simp
  have bad1: "handle_line decode clk d1 bad = Inr ([Error bad], d1)"
    using assms(2,3) l1 by (rule malformed_line)
  have bad: "handle_line decode clk d bad = Inr ([Error bad], d)"
    using assms(2,3,1) by (rule malformed_line)
  have with_bad: "handle_lines decode d (pre @ (clk, bad) # post)
                    = (evs1 @ [Error bad] @ evs2, d2, None)"
    by (simp add: handle_lines_append pre r1 bad1 post r2)
  have without: "handle_lines decode d (pre @ post) = (evs1 @ evs2, d2, None)"
    by (simp add: handle_lines_append pre r1 post r2)
  have skipped: "js_trim blank = [] \<longrightarrow> handle_line decode clk d blank = Inr ([], d)"
    by (simp add: handle_line_def)
  show ?thesis
    using bad pre r1 post r2 with_bad without skipped by blast
qed

theorem malformed_line_reported_witness:
  "0 < error_listeners started_example \<and> js_trim ''not json'' \<noteq> []
   \<and> decode_example ''not json'' = None
   \<and> handle_line decode_example (at_time 0) started_example ''not json''
       = Inr ([Error ''not json''], started_example)
   \<and> handle_lines decode_example started_example
        [(at_time 0, ''not json''), (at_time 1, line_example)]
       = ([Error ''not json'', Meeting signal_example],
          started_example\<lparr>recentSignals := trackSignal Map.empty (at_time 1) signal_example\<rparr>,
          None)
   \<and> js_trim [CHR '' '', CHR 0x09] = []
   \<and> handle_line decode_example (at_time 0) started_example [CHR '' '', CHR 0x09]
       = Inr ([], started_example)"
proof -
  have l: "0 < error_listeners started_example"
    by (simp add: started_example_def onError_def)
  have t: "js_trim ''not json'' \<noteq> []"
    by (simp add: js_trim_def is_space_def)
  have n: "decode_example ''not json'' = None"
    by (simp add: decode_example_def line_example_def)
  have b: "js_trim [CHR '' '', CHR 0x09] = []"
    by (simp add: js_trim_def is_space_def)
  show ?thesis
    using l t n b
      malformed_line_reported
        [of started_example "''not json''" decode_example "at_time 0" "[]"
            "[(at_time 1, line_example)]" "[CHR '' '', CHR 0x09]", OF l t n]
    by (simp add: handle_line_example emit_unless_duplicate_def isDuplicateSignal_def
        pid_example started_example_def onError_def new_detector_def)
qed

theorem malformed_line_without_listener_counterexample:
  "start True new_detector = Inr (new_detector\<lparr>meeting_listeners := 1, child := Some tcc_init\<rparr>)
   \<and> decode_example ''not json'' = None
   \<and> decode_example line_example = Some json_example
   \<and> handle_lines decode_example
        (new_detector\<lparr>meeting_listeners := 1, child := Some tcc_init\<rparr>)
        [(at_time 0, ''not json''), (at_time 1, line_example)]
      = ([], new_detector\<lparr>meeting_listeners := 1, child := Some tcc_init\<rparr>,
         Some (Unhandled ''not json''))
   \<and> handle_lines decode_example
        (new_detector\<lparr>meeting_listeners := 1, child := Some tcc_init\<rparr>)
        [(at_time 1, line_example)]
      = ([Meeting signal_example],
         new_detector\<lparr>meeting_listeners := 1, child := Some tcc_init,
           recentSignals := trackSignal Map.empty (at_time 1) signal_example\<rparr>,
         None)
   \<and> 0 < error_listeners started_example
   \<and> decode_example [CHR '' '', CHR 0x09] = None
   \<and> handle_lines decode_example started_example [(at_time 0, [CHR '' '', CHR 0x09])]
      = ([], started_example, None)"
  by (simp add: start_def onMeeting_def new_detector_def handle_line_example
      handle_line_not_json emit_error_def emit_unless_duplicate_def isDuplicateSignal_def
      decode_not_json decode_line_example pid_example started_example_def onError_def
      decode_blank handle_line_blank)

lemma handle_line_change:
  assumes "handle_line decode clk d line = Inr (evs, d1)"
  shows "d1 = d \<or> (\<exists>s. evs = [Meeting s] \<and> pid s \<noteq> []
                       \<and> d1 = d\<lparr>recentSignals := trackSignal (recentSignals d) clk s\<rparr>)"
proof (cases "js_trim line = []")
  case True
  with assms show ?thesis by (simp add: handle_line_def)
next
  case False
  show ?thesis
  proof (cases "decode line")
    case None
    with assms False show ?thesis
      by (auto simp: handle_line_def emit_error_def split: if_splits)
  next
    case (Some obj)
    show ?thesis
    proof (cases "pid (parseSignal obj) = []")
      case True
      with assms False Some show ?thesis
        by (auto simp: handle_line_def emit_unless_duplicate_def trackSignal_def Let_def
            split: if_splits)
    next
      case nonempty: False
      with assms False Some show ?thesis
        by (auto simp: handle_line_def emit_unless_duplicate_def Let_def split: if_splits)
    qed
  qed
qed

lemma repeated_within_window:
  assumes "pid s \<noteq> []"
    and "recentSignals d0 (signal_key s) = Some \<lparr>entry_timestamp = t0, entry_signal = s0\<rparr>"
    and "\<forall>c\<in>set clks. t_check c - t0 < 60000"
    and "js_trim line \<noteq> []" and "decode line = Some obj" and "parseSignal obj = s"
  shows "handle_lines decode d0 (map (\<lambda>c. (c, line)) clks) = ([], d0, None)"
  using assms(3)
proof (induction clks)
  case Nil
  then show ?case by simp
next
  case (Cons c clks)
  have "handle_line decode c d0 line = Inr ([], d0)"
    using assms(1,2,4,5,6) Cons.prems
    by (simp add: handle_line_def emit_unless_duplicate_def isDuplicateSignal_def Let_def)
  with Cons show ?case by simp
qed

text \<open>
  C10. The handler changes the detector only when it emits a signal with a non-empty
  pid, and then only by tracking that signal: a blank line, a line that does not
  decode, a suppressed process, a duplicate and a signal without pid all leave the
  table, with the timestamps in it, as it was. So after a signal with a non-empty pid
  has been emitted, the same line repeated at any moments less than 60000 ms after the
  stored timestamp is dropped every time and the detector does not change; repeated
  60000 ms or more after that timestamp it is emitted again.
\<close>

theorem table_changes_only_on_emission:
  assumes "handle_line decode clk0 d line = Inr (evs, d0)"
  shows "(d0 = d \<or> (\<exists>s. evs = [Meeting s] \<and> pid s \<noteq> []
                        \<and> d0 = d\<lparr>recentSignals := trackSignal (recentSignals d) clk0 s\<rparr>))
       \<and> (decode line = Some obj \<and> evs = [Meeting (parseSignal obj)]
            \<and> pid (parseSignal obj) \<noteq> []
            \<and> (\<forall>c\<in>set clks. t_sweep clk0 \<le> t_check c \<and> t_check c - t_stamp clk0 < 60000)
            \<and> 60000 \<le> t_check clk1 - t_stamp clk0 \<longrightarrow>
          handle_lines decode d0 (map (\<lambda>c. (c, line)) clks) = ([], d0, None)
          \<and> (\<exists>d2. handle_line decode clk1 d0 line = Inr ([Meeting (parseSignal obj)], d2)))"
proof (intro conjI impI)
  show "d0 = d \<or> (\<exists>s. evs = [Meeting s] \<and> pid s \<noteq> []
                        \<and> d0 = d\<lparr>recentSignals := trackSignal (recentSignals d) clk0 s\<rparr>)"
    using assms by (rule handle_line_change)
next
  assume h: "decode line = Some obj \<and> evs = [Meeting (parseSignal obj)]
            \<and> pid (parseSignal obj) \<noteq> []
            \<and> (\<forall>c\<in>set clks. t_sweep clk0 \<le> t_check c \<and> t_check c - t_stamp clk0 < 60000)
            \<and> 60000 \<le> t_check clk1 - t_stamp clk0"
  let ?s = "parseSignal obj"
  from h have dec: "decode line = Some obj" and evs: "evs = [Meeting ?s]"
    and p: "pid ?s \<noteq> []" and late: "60000 \<le> t_check clk1 - t_stamp clk0"
    and early: "\<forall>c\<in>set clks. t_sweep clk0 \<le> t_check c \<and> t_check c - t_stamp clk0 < 60000"
    by blast+
  have trim: "js_trim line \<noteq> []"
    using assms evs by (auto simp: handle_line_def split: if_splits)
  have nsup: "\<not> suppressed_process ?s"
    using assms evs dec trim by (auto simp: handle_line_def Let_def split: if_splits)
  have first: "emit_unless_duplicate clk0 d ?s = ([Meeting ?s], d0)"
    using assms evs dec trim nsup by (simp add: handle_line_def Let_def)
  have again: "handle_line decode c d0 line = Inr (emit_unless_duplicate c d0 ?s)" for c
    using dec trim nsup by (simp add: handle_line_def Let_def)
  show "handle_lines decode d0 (map (\<lambda>c. (c, line)) clks) = ([], d0, None)"
  proof (cases "clks = []")
    case True
    then show ?thesis by simp
  next
    case False
    then obtain c where c: "c \<in> set clks" by (cases clks) auto
    with early have "t_sweep clk0 \<le> t_check c" "t_check c - t_stamp clk0 < 60000" by blast+
    then have keep: "\<not> t_stamp clk0 < t_sweep clk0 - 120000" by linarith
    from first have "recentSignals d0 = trackSignal (recentSignals d) clk0 ?s"
      by (auto simp: emit_unless_duplicate_def split: if_splits)
    with trackSignal_own [OF p, of "recentSignals d" clk0] keep
    have "recentSignals d0 (signal_key ?s)
            = Some \<lparr>entry_timestamp = t_stamp clk0, entry_signal = ?s\<rparr>" by simp
    moreover from early have "\<forall>c\<in>set clks. t_check c - t_stamp clk0 < 60000" by blast
    ultimately show ?thesis
      using p trim dec by (intro repeated_within_window [where s = ?s]) auto
  qed
  from second_signal_window [OF p refl refl refl first, of clk1] late
  have "fst (emit_unless_duplicate clk1 d0 ?s) = [Meeting ?s]" by blast
  then show "\<exists>d2. handle_line decode clk1 d0 line = Inr ([Meeting ?s], d2)"
    unfolding again by (cases "emit_unless_duplicate clk1 d0 ?s") auto
qed

theorem table_changes_only_on_emission_witness:
  "handle_line decode_example (at_time 0) started_example line_example
     = Inr ([Meeting signal_example], tracked_example)
   \<and> handle_lines decode_example tracked_example
        (map (\<lambda>c. (c, line_example)) [at_time 5000, at_time 30000, at_time 59999])
      = ([], tracked_example, None)
   \<and> (\<exists>d2. handle_line decode_example (at_time 60000) tracked_example line_example
              = Inr ([Meeting signal_example], d2))"
proof -
  have h: "handle_line decode_example (at_time 0) started_example line_example
             = Inr ([Meeting signal_example], tracked_example)"
    by (simp add: handle_line_example emit_unless_duplicate_def isDuplicateSignal_def
        pid_example started_example_def tracked_example_def onError_def new_detector_def)
  show ?thesis
    using h
      table_changes_only_on_emission
        [OF h, of json_example "[at_time 5000, at_time 30000, at_time 59999]" "at_time 60000"]
    by (simp add: decode_line_example parseSignal_example pid_example at_time_def)
qed

section \<open>Stopping and starting again\<close>

text \<open>
  C6 (as amended). The table of recent signals belongs to the detector object, not to
  the monitoring session: \<^verbatim>\<open>stop()\<close> followed by \<^verbatim>\<open>start()\<close> always succeeds and leaves
  the table exactly as it was, so the duplicate check answers in the new session as it
  would have in the old one. The variables of the script, among them the snapshot of the
  last emitted state, end with the script at \<^verbatim>\<open>stop()\<close>; the script spawned by
  \<^verbatim>\<open>start()\<close> begins with its initial variables.
\<close>

theorem table_survives_restart:
  "\<exists>d1. start with_callback (stop d) = Inr d1
        \<and> recentSignals d1 = recentSignals d
        \<and> child d1 = Some tcc_init
        \<and> fst (emit_unless_duplicate clk d1 s) = fst (emit_unless_duplicate clk d s)"
  by (simp add: start_def stop_def onMeeting_def emit_unless_duplicate_def)

theorem table_survives_restart_witness:
  "last_log_time
     (the (child (snd (child_reads probes_example
                         ''kTCCServiceMicrophone target_token={pid:7390}'' tracked_example))))
     = 1735689600
   \<and> (\<exists>d1. start False
               (stop (snd (child_reads probes_example
                             ''kTCCServiceMicrophone target_token={pid:7390}'' tracked_example)))
             = Inr d1
           \<and> recentSignals d1 = recentSignals tracked_example
           \<and> child d1 = Some tcc_init
           \<and> fst (emit_unless_duplicate (at_time 1000) d1 signal_example) = [])"
proof -
  let ?d = "snd (child_reads probes_example
                   ''kTCCServiceMicrophone target_token={pid:7390}'' tracked_example)"
  have c: "child_reads probes_example ''kTCCServiceMicrophone target_token={pid:7390}''
             tracked_example
           = (Some (json_record probes_example
                      (tcc_init\<lparr>current_svc := ''microphone'', current_pid := ''7390'',
                         current_app := ''MSTeams'', current_parent_pid := ''1'',
                         current_process_path := ''/Applications/MSTeams''\<rparr>)),
              tracked_example\<lparr>child := Some (reset_current (update_previous probes_example
                      (tcc_init\<lparr>current_svc := ''microphone'', current_pid := ''7390'',
                         current_app := ''MSTeams'', current_parent_pid := ''1'',
                         current_process_path := ''/Applications/MSTeams''\<rparr>)))\<rparr>)"
    by (simp add: child_reads_def tracked_example_def started_example_def process_line_def
        parse_service_def parse_verdict_def pid_token_def is_digit_def lookup_process_def
        resolve_def should_emit_def current_state_def previous_state_def cam_now_def
        probes_example_def tcc_init_def)
  have r: "recentSignals ?d = recentSignals tracked_example"
    by (simp add: c)
  have t: "last_log_time (the (child ?d)) = 1735689600"
    unfolding c by (simp add: reset_current_def update_previous_def probes_example_def)
  have dup: "fst (emit_unless_duplicate (at_time 1000) ?d signal_example) = []"
    unfolding c by (simp add: emit_unless_duplicate_def isDuplicateSignal_def pid_example
        tracked_example_def trackSignal_def cleanup_def at_time_def)
  show ?thesis
    using t r dup table_survives_restart [of False ?d "at_time 1000" signal_example]
    by auto
qed

theorem restart_keeps_table_counterexample:
  "start False (onError new_detector) = Inr started_example
   \<and> handle_lines decode_example started_example [(at_time 0, line_example)]
       = ([Meeting signal_example], tracked_example, None)
   \<and> start False (stop tracked_example) = Inr tracked_example
   \<and> handle_lines decode_example tracked_example [(at_time 1000, line_example)]
       = ([], tracked_example, None)"
  by (simp add: start_def stop_def started_example_def tracked_example_def
      handle_line_example emit_unless_duplicate_def isDuplicateSignal_def pid_example
      trackSignal_def cleanup_def at_time_def onError_def new_detector_def)

section \<open>The parser and the normalizer\<close>

lemma first_match_Cons:
  "(case first_match ((test, label) # rules) app proc of Some l \<Rightarrow> l | None \<Rightarrow> fallback)
     = (if test app proc then label
        else (case first_match rules app proc of Some l \<Rightarrow> l | None \<Rightarrow> fallback))"
  by simp

lemma first_match_Nil:
  "(case first_match [] app proc of Some l \<Rightarrow> l | None \<Rightarrow> fallback) = fallback"
  by simp

lemma either_includes_simps:
  "either_includes [a] [b] app proc = (str_includes app a \<or> str_includes proc b)"
  "either_includes [a] [b, c] app proc
     = (str_includes app a \<or> str_includes proc b \<or> str_includes proc c)"
  by (simp_all add: either_includes_def)

lemma transformAppName_first_match:
  "transformAppName frontApp process_name =
     (case first_match app_rules (str_or (map_option toLowerCase frontApp) [])
             (str_or (map_option toLowerCase process_name) []) of
        Some label \<Rightarrow> label
      | None \<Rightarrow> str_or frontApp ''Meeting App'')"
  unfolding transformAppName_def app_rules_def Let_def
  by (simp only: first_match_Cons first_match_Nil either_includes_simps disj_assoc)


lemma lower_examples:
  "toLowerCase ''Google Chrome'' = ''google chrome''"
  "toLowerCase ''meet.google.com helper'' = ''meet.google.com helper''"
  "toLowerCase ''Safari'' = ''safari''"
  "toLowerCase ''coreaudiod'' = ''coreaudiod''"
  by (simp_all add: toLowerCase_def to_lower_char_def)

lemma no_rule_examples:
  "first_match app_rules ''safari'' ''safari'' = None"
  "first_match app_rules [] ''coreaudiod'' = None"
  by (simp_all add: app_rules_def either_includes_def)

text \<open>
  C8. The normalizer is a function of its two arguments alone: it reads no state, so
  equal arguments give equal labels. Its chain of conditions is the ordered rule table
  read from the top, and the first rule whose test holds gives the label; for the front
  application \<open>Google Chrome\<close> and the process \<open>meet.google.com helper\<close> that is the
  rule of Google Meet. When no rule holds, the label is the front application as given
  if it is present and non-empty, and \<open>Meeting App\<close> otherwise.
\<close>

theorem normalizer_first_rule_wins:
  "transformAppName frontApp process_name =
     (case first_match app_rules (str_or (map_option toLowerCase frontApp) [])
             (str_or (map_option toLowerCase process_name) []) of
        Some label \<Rightarrow> label
      | None \<Rightarrow> str_or frontApp ''Meeting App'')
   \<and> transformAppName (Some ''Google Chrome'') (Some ''meet.google.com helper'') = ''Google Meet''
   \<and> (first_match app_rules (str_or (map_option toLowerCase frontApp) [])
          (str_or (map_option toLowerCase process_name) []) = None \<longrightarrow>
        transformAppName frontApp process_name =
          (case frontApp of
             None \<Rightarrow> ''Meeting App''
           | Some f \<Rightarrow> if f \<noteq> [] then f else ''Meeting App''))"
proof (intro conjI impI)
  show table: "transformAppName frontApp process_name =
     (case first_match app_rules (str_or (map_option toLowerCase frontApp) [])
             (str_or (map_option toLowerCase process_name) []) of
        Some label \<Rightarrow> label
      | None \<Rightarrow> str_or frontApp ''Meeting App'')" for frontApp process_name
    by (rule transformAppName_first_match)
  show "transformAppName (Some ''Google Chrome'') (Some ''meet.google.com helper'')
          = ''Google Meet''"
    by (simp add: table lower_examples str_or_def app_rules_def either_includes_def)
  assume "first_match app_rules (str_or (map_option toLowerCase frontApp) [])
            (str_or (map_option toLowerCase process_name) []) = None"
  then show "transformAppName frontApp process_name =
          (case frontApp of
             None \<Rightarrow> ''Meeting App''
           | Some f \<Rightarrow> if f \<noteq> [] then f else ''Meeting App'')"
    by (simp add: table str_or_def split: option.splits)
qed

theorem normalizer_first_rule_wins_witness:
  "first_match app_rules (str_or (map_option toLowerCase (Some ''Safari'')) [])
     (str_or (map_option toLowerCase (Some ''Safari'')) []) = None
   \<and> transformAppName (Some ''Safari'') (Some ''Safari'') = ''Safari''
   \<and> first_match app_rules (str_or (map_option toLowerCase None) [])
     (str_or (map_option toLowerCase (Some ''coreaudiod'')) []) = None
   \<and> transformAppName None (Some ''coreaudiod'') = ''Meeting App''"
proof -
  have a: "first_match app_rules (str_or (map_option toLowerCase (Some ''Safari'')) [])
             (str_or (map_option toLowerCase (Some ''Safari'')) []) = None"
    by (simp add: str_or_def lower_examples no_rule_examples)
  have b: "first_match app_rules (str_or (map_option toLowerCase None) [])
             (str_or (map_option toLowerCase (Some ''coreaudiod'')) []) = None"
    by (simp add: str_or_def lower_examples no_rule_examples)
  show ?thesis
    using a b
      normalizer_first_rule_wins [of "Some ''Safari''" "Some ''Safari''"]
      normalizer_first_rule_wins [of None "Some ''coreaudiod''"]
    by (simp add: str_or_def)
qed

text \<open>
  C5. The service of the parsed signal is the label of the normalizer for the front
  application and the process of the record when the service of the record is absent,
  empty, \<open>microphone\<close> or \<open>camera\<close>, and is the service of the record unchanged in every
  other case. The signal the handler emits for a line is the parsed one.
\<close>

theorem parser_service:
  "(j_service obj = None \<or> j_service obj = Some [] \<or> j_service obj = Some ''microphone''
      \<or> j_service obj = Some ''camera'' \<longrightarrow>
    service (parseSignal obj) = transformAppName (j_front_app obj) (j_process obj))
   \<and> (j_service obj = Some s \<and> s \<noteq> [] \<and> s \<noteq> ''microphone'' \<and> s \<noteq> ''camera'' \<longrightarrow>
        service (parseSignal obj) = s)
   \<and> (decode line = Some obj \<and> handle_line decode clk d line = Inr ([Meeting signal], d1) \<longrightarrow>
        signal = parseSignal obj)"
  by (auto simp: parseSignal_def str_or_def handle_line_def emit_unless_duplicate_def Let_def
      split: if_splits)

theorem parser_service_witness:
  "j_service json_example = Some ''microphone''
   \<and> service (parseSignal json_example) = ''Microsoft Teams''
   \<and> j_service (json_example\<lparr>j_service := Some ''Zoom''\<rparr>) = Some ''Zoom''
   \<and> service (parseSignal (json_example\<lparr>j_service := Some ''Zoom''\<rparr>)) = ''Zoom''
   \<and> decode_example line_example = Some json_example
   \<and> handle_line decode_example (at_time 0) started_example line_example
       = Inr ([Meeting signal_example], tracked_example)
   \<and> signal_example = parseSignal json_example"
proof -
  have a: "j_service json_example = Some ''microphone''"
    by (simp add: json_example_def)
  have b: "j_service (json_example\<lparr>j_service := Some ''Zoom''\<rparr>) = Some ''Zoom''"
    by simp
  have t: "transformAppName (j_front_app json_example) (j_process json_example)
             = ''Microsoft Teams''"
    by (simp add: json_example_def transformAppName_def str_or_def toLowerCase_def
        to_lower_char_def)
  have h: "handle_line decode_example (at_time 0) started_example line_example
             = Inr ([Meeting signal_example], tracked_example)"
    by (simp add: handle_line_example emit_unless_duplicate_def isDuplicateSignal_def
        pid_example started_example_def tracked_example_def onError_def new_detector_def)
  show ?thesis
    using a b t h decode_line_example
      parser_service [of json_example "''microphone''" decode_example line_example "at_time 0"
                         started_example signal_example tracked_example]
      parser_service [of "json_example\<lparr>j_service := Some ''Zoom''\<rparr>" "''Zoom''"]
    by (simp add: parseSignal_example)
qed

section \<open>Properties of the script\<close>

lemma match_pid_nonempty: "match_pid line = Some p \<Longrightarrow> p \<noteq> []"
  by (induction line) (auto simp: Let_def split: if_splits)

lemma parse_verdict_svc: "current_svc (parse_verdict line st) = current_svc st"
  by (simp add: parse_verdict_def)

lemma parse_service_verdict: "current_verdict (parse_service line st) = current_verdict st"
  by (simp add: parse_service_def)

text \<open>The variables after a lookup that succeeds.\<close>

lemma lookup_process_found:
  "p \<noteq> [] \<Longrightarrow> ps_app pr p = Some app \<Longrightarrow>
   lookup_process pr p st =
     Some (st\<lparr>current_pid := p, current_app := app, current_parent_pid := ps_parent_pid pr p,
              current_process_path := ps_process_path pr p\<rparr>)"
  by (simp add: lookup_process_def)

lemma lookup_process_gone:
  "p \<noteq> [] \<Longrightarrow> ps_app pr p = None \<Longrightarrow> lookup_process pr p st = None"
  by (simp add: lookup_process_def)

lemma process_line_found:
  assumes "match_pid line = Some p" and "ps_app pr p = Some app"
  shows "process_line pr st line =
           Some (resolve pr
                  ((parse_verdict line (parse_service line st))
                     \<lparr>current_pid := p, current_app := app,
                      current_parent_pid := ps_parent_pid pr p,
                      current_process_path := ps_process_path pr p\<rparr>))"
  using assms match_pid_nonempty [OF assms(1)]
  by (simp add: process_line_def lookup_process_found)

lemma match_pid_example: "match_pid ''target_token={pid:5, auid:501}'' = Some ''5''"
  by (simp add: pid_token_def is_digit_def)

lemma match_trigger_example: "match_pid trigger_example = Some ''7390''"
  by (simp add: trigger_example_def pid_token_def is_digit_def)

lemma service_trigger_example:
  "current_svc (parse_service trigger_example st) = ''microphone''"
  by (simp add: trigger_example_def parse_service_def)

text \<open>
  C1 (as amended). Take a line with the pid pattern for which the lookup of the process
  by \<^verbatim>\<open>ps\<close> succeeds. The loop goes on, and it resets the whole accumulator when a
  service is known by then, whether or not a record is printed. When no service is
  known, nothing is printed, the service stays empty, and the accumulator keeps the pid
  of the line and the verdict gathered so far.
\<close>

theorem trigger_resets_when_service_known:
  assumes "match_pid line = Some p" and "ps_app pr p = Some app"
  shows "\<exists>out st1.
           process_line pr st line = Some (out, st1)
           \<and> (current_svc (parse_service line st) \<noteq> [] \<longrightarrow>
                current_svc st1 = [] \<and> current_verdict st1 = [] \<and> current_pid st1 = []
                \<and> current_app st1 = [] \<and> current_parent_pid st1 = []
                \<and> current_process_path st1 = [])
           \<and> (current_svc (parse_service line st) = [] \<longrightarrow>
                out = None \<and> current_svc st1 = [] \<and> current_pid st1 = p
                \<and> current_verdict st1 = current_verdict (parse_verdict line st))"
proof -
  have p: "p \<noteq> []" using assms(1) by (rule match_pid_nonempty)
  let ?st2 = "(parse_verdict line (parse_service line st))
                \<lparr>current_pid := p, current_app := app,
                 current_parent_pid := ps_parent_pid pr p,
                 current_process_path := ps_process_path pr p\<rparr>"
  have pl: "process_line pr st line = Some (fst (resolve pr ?st2), snd (resolve pr ?st2))"
    using assms by (simp add: process_line_found)
  have known: "current_svc (parse_service line st) \<noteq> [] \<Longrightarrow>
           current_svc (snd (resolve pr ?st2)) = []
           \<and> current_verdict (snd (resolve pr ?st2)) = []
           \<and> current_pid (snd (resolve pr ?st2)) = []
           \<and> current_app (snd (resolve pr ?st2)) = []
           \<and> current_parent_pid (snd (resolve pr ?st2)) = []
           \<and> current_process_path (snd (resolve pr ?st2)) = []"
    using p by (simp add: resolve_def reset_current_def update_previous_def parse_verdict_svc)
  have unknown: "current_svc (parse_service line st) = [] \<Longrightarrow>
           fst (resolve pr ?st2) = None
           \<and> current_svc (snd (resolve pr ?st2)) = []
           \<and> current_pid (snd (resolve pr ?st2)) = p
           \<and> current_verdict (snd (resolve pr ?st2)) = current_verdict (parse_verdict line st)"
    by (simp add: resolve_def parse_verdict_svc parse_verdict_def parse_service_verdict)
  show ?thesis
    using pl known unknown by blast
qed

theorem trigger_resets_when_service_known_witness:
  "match_pid trigger_example = Some ''7390''
   \<and> ps_app probes_example ''7390'' = Some ''MSTeams''
   \<and> current_svc (parse_service trigger_example tcc_init) \<noteq> []
   \<and> (\<exists>out st1. process_line probes_example tcc_init trigger_example = Some (out, st1)
          \<and> current_svc st1 = [] \<and> current_verdict st1 = [] \<and> current_pid st1 = [])
   \<and> match_pid ''target_token={pid:5}'' = Some ''5''
   \<and> ps_app probes_example ''5'' = Some ''MSTeams''
   \<and> current_svc (parse_service ''target_token={pid:5}'' tcc_init) = []
   \<and> (\<exists>st1. process_line probes_example tcc_init ''target_token={pid:5}'' = Some (None, st1)
          \<and> current_pid st1 = ''5'')"
proof -
  have a1: "ps_app probes_example ''7390'' = Some ''MSTeams''"
    by (simp add: probes_example_def)
  have s1: "current_svc (parse_service trigger_example tcc_init) \<noteq> []"
    by (simp add: service_trigger_example)
  have m2: "match_pid ''target_token={pid:5}'' = Some ''5''"
    by (simp add: pid_token_def is_digit_def)
  have a2: "ps_app probes_example ''5'' = Some ''MSTeams''"
    by (simp add: probes_example_def)
  have s2: "current_svc (parse_service ''target_token={pid:5}'' tcc_init) = []"
    by (simp add: parse_service_def tcc_init_def)
  show ?thesis
    using match_trigger_example a1 s1 m2 a2 s2
      trigger_resets_when_service_known [OF match_trigger_example a1, of tcc_init]
      trigger_resets_when_service_known [OF m2 a2, of tcc_init]
    by auto
qed

theorem accumulator_reset_counterexample:
  "match_pid ''target_token={pid:5}'' = Some ''5''
   \<and> ps_app probes_example ''5'' = Some ''MSTeams''
   \<and> fst (run_lines tcc_init
            [(probes_example, ''Denied''), (probes_example, ''target_token={pid:5}'')])
       = [None, None]
   \<and> map_option current_verdict
        (snd (run_lines tcc_init
               [(probes_example, ''Denied''), (probes_example, ''target_token={pid:5}'')]))
       = Some ''denied''
   \<and> map_option current_pid
        (snd (run_lines tcc_init
               [(probes_example, ''Denied''), (probes_example, ''target_token={pid:5}'')]))
       = Some ''5''
   \<and> map (map_option f_verdict)
        (fst (run_lines tcc_init
               [(probes_example, ''Denied''), (probes_example, ''target_token={pid:5}''),
                (probes_example, ''kTCCServiceMicrophone''),
                (probes_example, ''target_token={pid:7}'')]))
       = [None, None, None, Some ''denied'']"
  by (simp add: process_line_def parse_service_def parse_verdict_def pid_token_def is_digit_def
      resolve_def lookup_process_def tcc_init_def probes_example_def should_emit_def
      current_state_def previous_state_def cam_now_def json_record_def)

section \<open>The state comparison of the script\<close>

lemma split_at_separator:
  "x \<notin> set a \<Longrightarrow> x \<notin> set a' \<Longrightarrow> (a @ x # r = a' @ x # r') = (a = a' \<and> r = r')"
proof (induction a arbitrary: a')
  case Nil
  then show ?case by (cases a') auto
next
  case (Cons y a)
  then show ?case by (cases a') auto
qed

lemma state_string_eq:
  assumes "CHR ''|'' \<notin> set c" "CHR ''|'' \<notin> set c'" "CHR ''|'' \<notin> set s" "CHR ''|'' \<notin> set s'"
  shows "(c @ ''|'' @ s @ ''|'' @ n = c' @ ''|'' @ s' @ ''|'' @ n')
           = (c = c' \<and> s = s' \<and> n = n')"
  using assms by (simp add: split_at_separator)

lemma cam_now_bar: "CHR ''|'' \<notin> set (cam_now pr)"
  by (simp add: cam_now_def)

lemma bar_free_init: "bar_free tcc_init"
  by (simp add: bar_free_def tcc_init_def)

lemma bar_free_parse: "bar_free st \<Longrightarrow> bar_free (parse_verdict line (parse_service line st))"
  by (simp add: bar_free_def parse_verdict_def parse_service_def)

lemma bar_free_lookup: "bar_free st \<Longrightarrow> lookup_process pr p st = Some st2 \<Longrightarrow> bar_free st2"
  by (auto simp: bar_free_def lookup_process_def Let_def split: if_splits option.splits)

lemma bar_free_resolve: "bar_free st \<Longrightarrow> bar_free (snd (resolve pr st))"
  by (simp add: bar_free_def resolve_def reset_current_def update_previous_def cam_now_bar)

lemma bar_free_process_line:
  assumes "bar_free st" and "process_line pr st line = Some (out, st1)"
  shows "bar_free st1"
proof (cases "match_pid line")
  case None
  with assms show ?thesis by (auto simp: process_line_def Let_def bar_free_parse)
next
  case (Some p)
  with assms(2) obtain st2
    where l: "lookup_process pr p (parse_verdict line (parse_service line st)) = Some st2"
      and r: "resolve pr st2 = (out, st1)"
    by (auto simp: process_line_def Let_def split: option.splits)
  from assms(1) have "bar_free (parse_verdict line (parse_service line st))"
    by (rule bar_free_parse)
  then have "bar_free st2" using l by (rule bar_free_lookup)
  then have "bar_free (snd (resolve pr st2))" by (rule bar_free_resolve)
  with r show ?thesis by simp
qed

lemma run_lines_Cons_Some:
  assumes "run_lines st ((pr, line) # rest) = (outs, Some st2)"
  obtains out st1 outs1 where "process_line pr st line = Some (out, st1)"
    and "run_lines st1 rest = (outs1, Some st2)" and "outs = out # outs1"
  using assms by (auto split: option.splits prod.splits)

lemma bar_free_run_lines:
  "bar_free st \<Longrightarrow> run_lines st hist = (outs, Some st2) \<Longrightarrow> bar_free st2"
proof (induction hist arbitrary: st outs)
  case Nil
  then show ?case by simp
next
  case (Cons a hist)
  obtain pr line where a: "a = (pr, line)" by (cases a)
  from Cons.prems(2) [unfolded a] obtain out st1 outs1
    where s: "process_line pr st line = Some (out, st1)"
      and r: "run_lines st1 hist = (outs1, Some st2)"
    by (rule run_lines_Cons_Some)
  from Cons.prems(1) s have "bar_free st1" by (rule bar_free_process_line)
  then show ?case using r by (rule Cons.IH)
qed

text \<open>A trigger line with a known service and a process that is found, in terms of the
  state the test sees.\<close>

lemma process_line_trigger:
  assumes "match_pid line = Some p" and "ps_app pr p = Some app"
    and "current_svc (parse_service line st) \<noteq> []"
  shows "process_line pr st line =
           Some (if (cam_now pr @ ''|'' @ current_svc (parse_service line st) @ ''|''
                       @ normalize_app app
                     \<noteq> prev_camera_active st @ ''|'' @ prev_service st @ ''|''
                       @ prev_main_app st)
                    \<or> 10 \<le> current_time pr - last_log_time st
                 then (Some (json_record pr
                               ((parse_verdict line (parse_service line st))
                                  \<lparr>current_pid := p, current_app := app,
                                   current_parent_pid := ps_parent_pid pr p,
                                   current_process_path := ps_process_path pr p\<rparr>)),
                       reset_current (update_previous pr
                               ((parse_verdict line (parse_service line st))
                                  \<lparr>current_pid := p, current_app := app,
                                   current_parent_pid := ps_parent_pid pr p,
                                   current_process_path := ps_process_path pr p\<rparr>)))
                 else (None,
                       reset_current
                         ((parse_verdict line (parse_service line st))
                            \<lparr>current_pid := p, current_app := app,
                             current_parent_pid := ps_parent_pid pr p,
                             current_process_path := ps_process_path pr p\<rparr>)))"
proof -
  have p: "p \<noteq> []" using assms(1) by (rule match_pid_nonempty)
  have frame: "prev_camera_active (parse_verdict line (parse_service line st)) = prev_camera_active st"
    "prev_service (parse_verdict line (parse_service line st)) = prev_service st"
    "prev_main_app (parse_verdict line (parse_service line st)) = prev_main_app st"
    "last_log_time (parse_verdict line (parse_service line st)) = last_log_time st"
    by (simp_all add: parse_verdict_def parse_service_def)
  show ?thesis
    unfolding process_line_found [OF assms(1,2)]
    using assms(3) p
    by (simp add: resolve_def should_emit_def current_state_def previous_state_def
        time_diff_def parse_verdict_svc frame)
qed

lemma snapshot_after_emission:
  assumes "match_pid line = Some p" and "ps_app pr p = Some app"
    and "current_svc (parse_service line st) \<noteq> []"
    and "process_line pr st line = Some (Some r, st1)"
  shows "snapshot st1 =
           ((cam_now pr, current_svc (parse_service line st), normalize_app app),
            current_time pr)"
  using assms(4) unfolding process_line_trigger [OF assms(1-3)]
  by (auto simp: snapshot_def reset_current_def update_previous_def parse_verdict_svc
      split: if_splits)

lemma snapshot_without_emission:
  assumes "process_line pr st line = Some (None, st1)"
  shows "snapshot st1 = snapshot st"
proof -
  have frame: "snapshot (parse_verdict line (parse_service line st)) = snapshot st"
    by (simp add: snapshot_def parse_verdict_def parse_service_def)
  have look: "lookup_process pr p st0 = Some st2 \<Longrightarrow> snapshot st2 = snapshot st0"
    for p st0 st2
    by (auto simp: lookup_process_def snapshot_def Let_def split: if_splits option.splits)
  have res: "resolve pr st2 = (None, st3) \<Longrightarrow> snapshot st3 = snapshot st2" for st2 st3
    by (auto simp: resolve_def snapshot_def reset_current_def split: if_splits)
  show ?thesis
  proof (cases "match_pid line")
    case None
    with assms frame show ?thesis by (auto simp: process_line_def Let_def)
  next
    case (Some p)
    with assms obtain st2
      where l: "lookup_process pr p (parse_verdict line (parse_service line st)) = Some st2"
        and r: "resolve pr st2 = (None, st1)"
      by (auto simp: process_line_def Let_def split: option.splits)
    from res [OF r] look [OF l] frame show ?thesis by simp
  qed
qed

lemma snapshot_quiet:
  "run_lines st mid = (outs, Some st2) \<Longrightarrow> \<forall>out\<in>set outs. out = None \<Longrightarrow>
   snapshot st2 = snapshot st"
proof (induction mid arbitrary: st outs)
  case Nil
  then show ?case by simp
next
  case (Cons a mid)
  obtain q l where a: "a = (q, l)" by (cases a)
  from Cons.prems(1) [unfolded a] obtain out st1 outs1
    where s: "process_line q st l = Some (out, st1)"
      and r: "run_lines st1 mid = (outs1, Some st2)" and o: "outs = out # outs1"
    by (rule run_lines_Cons_Some)
  from Cons.prems(2) o have none: "out = None" and rest: "\<forall>out\<in>set outs1. out = None"
    by simp_all
  from s none have "snapshot st1 = snapshot st" by (simp add: snapshot_without_emission)
  moreover from r rest have "snapshot st2 = snapshot st1" by (rule Cons.IH)
  ultimately show ?case by simp
qed

lemma emits_iff_state_or_cooldown:
  assumes "bar_free st" and "match_pid line = Some p" and "ps_app pr p = Some app"
    and "current_svc (parse_service line st) \<noteq> []"
  shows "\<exists>out st1. process_line pr st line = Some (out, st1)
           \<and> (out \<noteq> None) =
               ((cam_now pr, current_svc (parse_service line st), normalize_app app)
                   \<noteq> fst (snapshot st)
                \<or> 10 \<le> current_time pr - snd (snapshot st))"
proof -
  have "CHR ''|'' \<notin> set (current_svc (parse_service line st))"
    using assms(1) by (simp add: parse_service_def bar_free_def)
  with assms(1) have "(cam_now pr @ ''|'' @ current_svc (parse_service line st) @ ''|''
                  @ normalize_app app
                = prev_camera_active st @ ''|'' @ prev_service st @ ''|'' @ prev_main_app st)
           = (cam_now pr = prev_camera_active st
              \<and> current_svc (parse_service line st) = prev_service st
              \<and> normalize_app app = prev_main_app st)"
    by (intro state_string_eq) (simp_all add: bar_free_def cam_now_bar)
  then show ?thesis
    unfolding process_line_trigger [OF assms(2-4)] by (auto simp: snapshot_def)
qed

lemma front_app_not_in_key:
  "(\<exists>st'. process_line (pr\<lparr>fg_app := other\<rparr>) st line = Some (None, st'))
     = (\<exists>st1. process_line pr st line = Some (None, st1))"
  by (auto simp: process_line_def resolve_def should_emit_def current_state_def time_diff_def
      cam_now_def lookup_process_def Let_def split: option.splits if_splits)

lemma pair_within_cooldown:
  assumes t1: "match_pid line = Some p" and a1: "ps_app pr p = Some app"
    and s1: "current_svc (parse_service line st) \<noteq> []"
    and first: "process_line pr st line = Some (Some r, st1)"
    and mid: "run_lines st1 mid = (outs2, Some st2)" and quiet: "\<forall>out\<in>set outs2. out = None"
    and t2: "match_pid line2 = Some p2" and a2: "ps_app pr2 p2 = Some app2"
    and s2: "current_svc (parse_service line2 st2) = current_svc (parse_service line st)"
    and cam: "cam_now pr2 = cam_now pr"
    and app: "normalize_app app2 = normalize_app app"
    and dt: "current_time pr2 - current_time pr < 10"
  shows "\<exists>st3. process_line pr2 st2 line2 = Some (None, st3)"
proof -
  from snapshot_after_emission [OF t1 a1 s1 first] snapshot_quiet [OF mid quiet]
  have snap: "snapshot st2 =
           ((cam_now pr, current_svc (parse_service line st), normalize_app app),
            current_time pr)" by simp
  from s1 s2 have s2': "current_svc (parse_service line2 st2) \<noteq> []" by simp
  show ?thesis
    unfolding process_line_trigger [OF t2 a2 s2']
    using snap s2 cam app dt by (simp add: snapshot_def)
qed

lemma run_three_example:
  "fst (run_lines tcc_init
          [(probes_example, trigger_example), (probes_zoom_example, trigger_zoom_example),
           (probes_later_example, trigger_example)])
     = [Some (json_record probes_example
                (tcc_init\<lparr>current_svc := ''microphone'', current_pid := ''7390'',
                   current_app := ''MSTeams'', current_parent_pid := ''1'',
                   current_process_path := ''/Applications/MSTeams''\<rparr>)),
        Some (json_record probes_zoom_example
                (tcc_init\<lparr>current_svc := ''microphone'', current_pid := ''812'',
                   current_app := ''zoom.us'', current_parent_pid := ''1'',
                   current_process_path := ''/Applications/zoom.us''\<rparr>)),
        Some (json_record probes_later_example
                (tcc_init\<lparr>current_svc := ''microphone'', current_pid := ''7390'',
                   current_app := ''MSTeams'', current_parent_pid := ''1'',
                   current_process_path := ''/Applications/MSTeams''\<rparr>))]"
  by (simp add: process_line_def parse_service_def parse_verdict_def pid_token_def is_digit_def
      trigger_example_def trigger_zoom_example_def lookup_process_def resolve_def
      should_emit_def current_state_def previous_state_def time_diff_def cam_now_def
      normalize_app_def update_previous_def reset_current_def json_record_def
      probes_example_def probes_zoom_example_def probes_later_example_def tcc_init_def)


text \<open>
  C4 (as amended). In any state the loop can reach, a line with the pid pattern that
  arrives with a known service and a process that \<^verbatim>\<open>ps\<close> finds prints a record exactly
  when the triple of camera status, service and normalized application differs from the
  snapshot of the last emission, or when the reading of \<^verbatim>\<open>date +%s\<close>, in whole
  seconds, is ten or more above the reading at that emission. The front application has
  no part in this: with another front application the decision is the same. An emission
  overwrites the snapshot with the triple and the reading. Hence of two such lines with
  the same triple, with no record printed for the lines between them and with readings
  less than ten apart, at most one prints a record, whatever the front applications are.
\<close>

theorem upstream_novelty_key:
  assumes "run_lines tcc_init hist = (outs, Some st)" and "match_pid line = Some p"
    and "ps_app pr p = Some app" and "current_svc (parse_service line st) \<noteq> []"
  shows "\<exists>out st1.
           process_line pr st line = Some (out, st1)
           \<and> ((out \<noteq> None) =
                 ((cam_now pr, current_svc (parse_service line st), normalize_app app)
                     \<noteq> fst (snapshot st)
                  \<or> 10 \<le> current_time pr - snd (snapshot st)))
           \<and> ((\<exists>st'. process_line (pr\<lparr>fg_app := other\<rparr>) st line = Some (None, st'))
                 = (out = None))
           \<and> (out \<noteq> None \<longrightarrow>
                 snapshot st1 =
                   ((cam_now pr, current_svc (parse_service line st), normalize_app app),
                    current_time pr))
           \<and> (run_lines st1 mid = (outs2, Some st2) \<and> (\<forall>printed\<in>set outs2. printed = None)
                 \<and> match_pid line2 = Some p2 \<and> ps_app pr2 p2 = Some app2
                 \<and> current_svc (parse_service line2 st2) = current_svc (parse_service line st)
                 \<and> cam_now pr2 = cam_now pr
                 \<and> normalize_app app2 = normalize_app app
                 \<and> current_time pr2 - current_time pr < 10 \<longrightarrow>
               out = None \<or> (\<exists>st3. process_line pr2 st2 line2 = Some (None, st3)))"
proof -
  have bf: "bar_free st"
    using bar_free_init assms(1) by (rule bar_free_run_lines)
  from emits_iff_state_or_cooldown [OF bf assms(2-4)]
  obtain out st1 where pl: "process_line pr st line = Some (out, st1)"
    and iff: "(out \<noteq> None) =
                 ((cam_now pr, current_svc (parse_service line st), normalize_app app)
                     \<noteq> fst (snapshot st)
                  \<or> 10 \<le> current_time pr - snd (snapshot st))"
    by blast
  have front: "(\<exists>st'. process_line (pr\<lparr>fg_app := other\<rparr>) st line = Some (None, st'))
                 = (out = None)"
    unfolding front_app_not_in_key using pl by auto
  have snap: "out \<noteq> None \<longrightarrow>
                 snapshot st1 =
                   ((cam_now pr, current_svc (parse_service line st), normalize_app app),
                    current_time pr)"
    using snapshot_after_emission [OF assms(2-4)] pl by auto
  have pair: "run_lines st1 mid = (outs2, Some st2) \<and> (\<forall>printed\<in>set outs2. printed = None)
                 \<and> match_pid line2 = Some p2 \<and> ps_app pr2 p2 = Some app2
                 \<and> current_svc (parse_service line2 st2) = current_svc (parse_service line st)
                 \<and> cam_now pr2 = cam_now pr
                 \<and> normalize_app app2 = normalize_app app
                 \<and> current_time pr2 - current_time pr < 10 \<longrightarrow>
               out = None \<or> (\<exists>st3. process_line pr2 st2 line2 = Some (None, st3))"
  proof (intro impI)
    assume h: "run_lines st1 mid = (outs2, Some st2) \<and> (\<forall>printed\<in>set outs2. printed = None)
                 \<and> match_pid line2 = Some p2 \<and> ps_app pr2 p2 = Some app2
                 \<and> current_svc (parse_service line2 st2) = current_svc (parse_service line st)
                 \<and> cam_now pr2 = cam_now pr
                 \<and> normalize_app app2 = normalize_app app
                 \<and> current_time pr2 - current_time pr < 10"
    show "out = None \<or> (\<exists>st3. process_line pr2 st2 line2 = Some (None, st3))"
    proof (cases out)
      case None
      then show ?thesis by simp
    next
      case (Some r)
      with pl have first: "process_line pr st line = Some (Some r, st1)" by simp
      from h have "\<exists>st3. process_line pr2 st2 line2 = Some (None, st3)"
        by (intro pair_within_cooldown [OF assms(2-4) first, of mid outs2 st2 line2 p2 pr2 app2])
           blast+
      then show ?thesis by simp
    qed
  qed
  show ?thesis
    using pl iff front snap pair by blast
qed

theorem upstream_novelty_key_witness:
  "run_lines tcc_init [] = ([], Some tcc_init)
   \<and> match_pid trigger_example = Some ''7390''
   \<and> ps_app probes_example ''7390'' = Some ''MSTeams''
   \<and> ps_app probes_later_example ''7390'' = Some ''MSTeams''
   \<and> current_svc (parse_service trigger_example tcc_init) \<noteq> []
   \<and> cam_now probes_later_example = cam_now probes_example
   \<and> current_time probes_later_example - current_time probes_example < 10
   \<and> (\<exists>r st1 st2 st3.
         process_line probes_example tcc_init trigger_example = Some (Some r, st1)
         \<and> run_lines st1 [(probes_example, ''Auth Granted'')] = ([None], Some st2)
         \<and> process_line probes_later_example st2 trigger_example = Some (None, st3))"
proof -
  let ?X = "tcc_init\<lparr>current_svc := ''microphone'', current_pid := ''7390'',
              current_app := ''MSTeams'', current_parent_pid := ''1'',
              current_process_path := ''/Applications/MSTeams''\<rparr>"
  let ?st1 = "reset_current (update_previous probes_example ?X)"
  let ?st2 = "?st1\<lparr>current_verdict := ''allowed''\<rparr>"
  have h1: "run_lines tcc_init [] = ([], Some tcc_init)" by simp
  have a1: "ps_app probes_example ''7390'' = Some ''MSTeams''"
    by (simp add: probes_example_def)
  have a2: "ps_app probes_later_example ''7390'' = Some ''MSTeams''"
    by (simp add: probes_later_example_def probes_example_def)
  have h3: "current_svc (parse_service trigger_example tcc_init) \<noteq> []"
    by (simp add: service_trigger_example)
  have cam: "cam_now probes_later_example = cam_now probes_example"
    by (simp add: cam_now_def probes_later_example_def)
  have dt: "current_time probes_later_example - current_time probes_example < 10"
    by (simp add: probes_later_example_def probes_example_def)
  have first: "process_line probes_example tcc_init trigger_example
                 = Some (Some (json_record probes_example ?X), ?st1)"
    by (simp add: process_line_def parse_service_def parse_verdict_def pid_token_def
        is_digit_def trigger_example_def lookup_process_def resolve_def should_emit_def
        current_state_def previous_state_def cam_now_def probes_example_def tcc_init_def)
  have mid: "run_lines ?st1 [(probes_example, ''Auth Granted'')] = ([None], Some ?st2)"
    by (simp add: process_line_def pid_token_def parse_service_def parse_verdict_def)
  have s2: "current_svc (parse_service trigger_example ?st2)
              = current_svc (parse_service trigger_example tcc_init)"
    by (simp add: service_trigger_example)
  note T = upstream_novelty_key
             [OF h1 match_trigger_example a1 h3,
              of "''Finder''" "[(probes_example, ''Auth Granted'')]" "[None]" ?st2
                 trigger_example "''7390''" probes_later_example "''MSTeams''"]
  have third: "\<exists>st3. process_line probes_later_example ?st2 trigger_example = Some (None, st3)"
    using T mid s2 match_trigger_example a2 cam dt unfolding first by simp
  then obtain st3
    where "process_line probes_later_example ?st2 trigger_example = Some (None, st3)" ..
  with first mid
  have "\<exists>r st1 st2 st3.
         process_line probes_example tcc_init trigger_example = Some (Some r, st1)
         \<and> run_lines st1 [(probes_example, ''Auth Granted'')] = ([None], Some st2)
         \<and> process_line probes_later_example st2 trigger_example = Some (None, st3)"
    by (intro exI conjI) assumption+
  with h1 match_trigger_example a1 a2 h3 cam dt show ?thesis by simp
qed

theorem pair_with_emission_between_counterexample:
  "map (map_option f_process)
     (fst (run_lines tcc_init
             [(probes_example, trigger_example), (probes_zoom_example, trigger_zoom_example),
              (probes_later_example, trigger_example)]))
     = [Some ''MSTeams'', Some ''zoom.us'', Some ''MSTeams'']
   \<and> map (map_option f_front_app)
     (fst (run_lines tcc_init
             [(probes_example, trigger_example), (probes_zoom_example, trigger_zoom_example),
              (probes_later_example, trigger_example)]))
     = [Some ''MSTeams'', Some ''zoom.us'', Some ''Finder'']
   \<and> map (map_option f_service)
     (fst (run_lines tcc_init
             [(probes_example, trigger_example), (probes_zoom_example, trigger_zoom_example),
              (probes_later_example, trigger_example)]))
     = [Some ''microphone'', Some ''microphone'', Some ''microphone'']
   \<and> map (map_option f_camera_active)
     (fst (run_lines tcc_init
             [(probes_example, trigger_example), (probes_zoom_example, trigger_zoom_example),
              (probes_later_example, trigger_example)]))
     = [Some ''false'', Some ''false'', Some ''false'']
   \<and> normalize_app ''MSTeams'' = ''MSTeams''
   \<and> current_time probes_later_example - current_time probes_example = 2"
  unfolding run_three_example
  by (simp add: json_record_def cam_now_def normalize_app_def probes_example_def
      probes_zoom_example_def probes_later_example_def)

end
